theory Spec2Isabelle
  imports Complex_Main
begin

section \<open>JavaScript numbers\<close>

text \<open>
  A JavaScript number is an IEEE 754 binary64 value, and every arithmetic operation rounds
  its exact result to the nearest such value, ties to the even significand. Numbers are
  modelled as the reals they denote and each operation as the exact operation followed by
  \<open>double\<close>, the rounding. \<open>bit_length n\<close> is the number of binary digits of \<open>n\<close>;
  \<open>expo x\<close> is the binary exponent of a positive \<open>x\<close>, the \<open>e\<close> with
  \<open>2^e \<le> x < 2^(e+1)\<close>; a significand has 53 bits, and below \<open>2^-1022\<close> the spacing
  stays that of the subnormal numbers. Infinities and NaN are not modelled: the model is of
  results below \<open>2^1024\<close> in magnitude and of divisions by a non-zero number.
\<close>

fun bit_length :: "nat \<Rightarrow> nat" where
  "bit_length n = (if n = 0 then 0 else Suc (bit_length (n div 2)))"

definition pow2 :: "int \<Rightarrow> real" where
  "pow2 e = (if 0 \<le> e then 2 ^ nat e else 1 / 2 ^ nat (- e))"

definition expo :: "real \<Rightarrow> int" where
  "expo x = (if 1 \<le> x then int (bit_length (nat \<lfloor>x\<rfloor>)) - 1
             else - int (bit_length (nat (\<lceil>1 / x\<rceil> - 1))))"

definition round_half_even :: "real \<Rightarrow> int" where
  "round_half_even m =
     (let f = \<lfloor>m\<rfloor>; d = m - of_int f
      in if d < 1 / 2 then f else if 1 / 2 < d then f + 1 else if even f then f else f + 1)"

definition double :: "real \<Rightarrow> real" where
  "double x =
     (if x = 0 then 0
      else let e = max (expo \<bar>x\<bar>) (- 1022); u = pow2 (e - 52)
           in of_int (round_half_even (x / u)) * u)"

definition js_add :: "real \<Rightarrow> real \<Rightarrow> real" where
  "js_add a b = double (a + b)"

definition js_sub :: "real \<Rightarrow> real \<Rightarrow> real" where
  "js_sub a b = double (a - b)"

definition js_mul :: "real \<Rightarrow> real \<Rightarrow> real" where
  "js_mul a b = double (a * b)"

definition js_div :: "real \<Rightarrow> real \<Rightarrow> real" where
  "js_div a b = double (a / b)"

section \<open>Collision geometry (class GameElementBoundaries)\<close>

text \<open>
  Pixel coordinates and thresholds are JavaScript numbers; a point is the pair \<open>[x, y]\<close>.
\<close>

type_synonym point = "real \<times> real"

record GameElementBoundaries =
  topLeft :: point
  topRight :: point
  bottomLeft :: point
  bottomRight :: point
  leftThreshold :: real
  rightThreshold :: real
  topThreshold :: real
  bottomThreshold :: real

text \<open>
  The constructor reads \<open>getPosition()\<close> and \<open>getSize()\<close> of the element; here the two
  pairs are passed in. The four thresholds default to 0 in the source.
\<close>

definition newBoundaries :: "point \<Rightarrow> point \<Rightarrow> real \<Rightarrow> real \<Rightarrow> real \<Rightarrow> real \<Rightarrow> GameElementBoundaries" where
  "newBoundaries pos sz l r t b =
     (case pos of (x, y) \<Rightarrow> case sz of (width, height) \<Rightarrow>
        \<lparr> topLeft = (x, y),
          topRight = (js_add x width, y),
          bottomLeft = (x, js_add y height),
          bottomRight = (js_add x width, js_add y height),
          leftThreshold = l,
          rightThreshold = r,
          topThreshold = t,
          bottomThreshold = b \<rparr>)"

definition checkTopRightCollision :: "GameElementBoundaries \<Rightarrow> point \<Rightarrow> point \<Rightarrow> bool" where
  "checkTopRightCollision this blP trP =
     (case blP of (blX, blY) \<Rightarrow> case trP of (trX, trY) \<Rightarrow>
      case topRight this of (localTrX, localTrY) \<Rightarrow>
        let xCollision = (js_add blX (rightThreshold this) \<le> localTrX \<and> trX \<ge> localTrX);
            yCollision = (trY \<le> localTrY \<and> js_sub blY (topThreshold this) \<ge> localTrY)
        in xCollision \<and> yCollision)"

definition checkTopLeftCollision :: "GameElementBoundaries \<Rightarrow> point \<Rightarrow> point \<Rightarrow> bool" where
  "checkTopLeftCollision this brP tlP =
     (case brP of (brX, brY) \<Rightarrow> case tlP of (tlX, tlY) \<Rightarrow>
      case topLeft this of (localTlX, localTlY) \<Rightarrow>
        let xCollision = (tlX \<le> localTlX \<and> js_sub brX (leftThreshold this) \<ge> localTlX);
            yCollision = (tlY \<le> localTlY \<and> js_sub brY (topThreshold this) \<ge> localTlY)
        in xCollision \<and> yCollision)"

definition checkBottomRightCollision :: "GameElementBoundaries \<Rightarrow> point \<Rightarrow> point \<Rightarrow> bool" where
  "checkBottomRightCollision this brP tlP =
     (case brP of (brX, brY) \<Rightarrow> case tlP of (tlX, tlY) \<Rightarrow>
      case bottomRight this of (localBrX, localBrY) \<Rightarrow>
        let xCollision = (js_add tlX (rightThreshold this) \<le> localBrX \<and> brX \<ge> localBrX);
            yCollision = (js_add tlY (bottomThreshold this) \<le> localBrY \<and> brY \<ge> localBrY)
        in xCollision \<and> yCollision)"

definition checkBottomLeftCollision :: "GameElementBoundaries \<Rightarrow> point \<Rightarrow> point \<Rightarrow> bool" where
  "checkBottomLeftCollision this blP trP =
     (case blP of (blX, blY) \<Rightarrow> case trP of (trX, trY) \<Rightarrow>
      case bottomLeft this of (localBlx, localBly) \<Rightarrow>
        let xCollision = (blX \<le> localBlx \<and> js_sub trX (leftThreshold this) \<ge> localBlx);
            yCollision = (js_add trY (bottomThreshold this) \<le> localBly \<and> blY \<ge> localBly)
        in xCollision \<and> yCollision)"

definition checkCollision :: "GameElementBoundaries \<Rightarrow> GameElementBoundaries \<Rightarrow> bool" where
  "checkCollision this other =
     (checkTopRightCollision this (bottomLeft other) (topRight other) \<or>
      checkTopLeftCollision this (bottomRight other) (topLeft other) \<or>
      checkBottomRightCollision this (bottomRight other) (topLeft other) \<or>
      checkBottomLeftCollision this (bottomLeft other) (topRight other))"

section \<open>Event bus (class EventBus)\<close>

text \<open>
  Events are identified by strings; the five names of \<open>GAME_EVENTS\<close> follow.
\<close>

type_synonym event = string

definition STOP :: event where "STOP = ''stop''"
definition WIN :: event where "WIN = ''win''"
definition LOSE :: event where "LOSE = ''lose''"
definition CHANGE_CHARACTER :: event where "CHANGE_CHARACTER = ''change_character''"
definition RESET :: event where "RESET = ''reset''"

text \<open>
  The \<open>source\<close> argument of \<open>emitEvent\<close> is the object that caused the event: the player,
  the game, or the character combobox. The \<open>params\<close> argument is \<open>{}\<close> by default or the
  selected option's value.
\<close>

datatype source = ThePlayer | TheGame | TheCombobox

datatype jsval = EmptyObject | Str string

text \<open>
  An observer is a JavaScript closure. The program creates exactly the closures below;
  an obstacle's closures are told apart by the obstacle's index among the obstacles.
  Two closures are the same object exactly when they are the same value here.
\<close>

datatype observer =
    FieldReset | FieldWin | FieldLose
  | PlayerChangeCharacter | PlayerReset | PlayerStop
  | EnemyReset nat | EnemyStop nat
  | GameWin | GameLose

text \<open>
  \<open>this.events\<close> is a \<open>Map\<close> from event names to a \<open>Set\<close> of observers. A JavaScript
  \<open>Set\<close> iterates in insertion order and ignores the insertion of a member it already
  has, so it is a list without duplicates.
\<close>

type_synonym 'o eventMap = "event \<rightharpoonup> 'o list"

definition Set_add :: "'o list \<Rightarrow> 'o \<Rightarrow> 'o list" where
  "Set_add s ob = (if ob \<in> set s then s else s @ [ob])"

definition observeEvent :: "event \<Rightarrow> 'o \<Rightarrow> 'o eventMap \<Rightarrow> 'o eventMap" where
  "observeEvent ev ob events =
     (let events1 = (if events ev = None then events(ev \<mapsto> []) else events)
      in case events1 ev of
           Some s \<Rightarrow> events1(ev \<mapsto> Set_add s ob)
         | None \<Rightarrow> events1)"

text \<open>
  The loop \<open>for (let observer of observers) { await observer(event, source, params); }\<close>:
  the next observer is called on the state the previous one left when its promise
  resolved. \<open>None\<close> stands for an observer that never completes.
\<close>

fun for_await :: "('o \<Rightarrow> 's \<Rightarrow> 's option) \<Rightarrow> 'o list \<Rightarrow> 's \<Rightarrow> 's option" where
  "for_await invoke [] s = Some s"
| "for_await invoke (ob # obs) s =
     (case invoke ob s of None \<Rightarrow> None | Some s1 \<Rightarrow> for_await invoke obs s1)"

section \<open>Game state\<close>

text \<open>
  The fields \<open>x\<close>, \<open>y\<close> and \<open>stopped\<close> occur in both \<open>Player\<close> and \<open>Enemy\<close>; the
  records prefix them. \<open>initialSquarePosition\<close> is the constructor argument that the
  player's RESET closure captures. The player's column and row, the obstacles' rows and the
  clock are whole numbers far below \<open>2^53\<close>, on which the arithmetic of numbers is exact:
  they are integers here.
\<close>

record FieldElement =
  drawWin :: bool
  drawLose :: bool

record Player =
  p_x :: int
  p_y :: int
  charImage :: jsval
  p_stopped :: bool
  initialSquarePosition :: "int \<times> int"

record Enemy =
  e_row :: int
  e_x :: real
  increase :: real
  lastUpdate :: int
  e_stopped :: bool

text \<open>
  A pending \<open>this.sleep(duration).then(() => emitEvent(event, this))\<close> of the game.
\<close>

record pending =
  duration :: nat
  emits :: event

text \<open>
  The whole game: the root element, its children (the player, then the obstacles), and the
  pending timeouts. \<open>published\<close> is a ghost field: the calls of \<open>emitEvent\<close> made so far,
  in order. No operation reads it.
\<close>

record world =
  root :: FieldElement
  player :: Player
  enemies :: "Enemy list"
  timers :: "pending list"
  published :: "(event \<times> source \<times> jsval) list"

definition CHAR_BOY :: jsval where
  "CHAR_BOY = Str ''img/char-boy.png''"

definition update_enemy :: "nat \<Rightarrow> (Enemy \<Rightarrow> Enemy) \<Rightarrow> world \<Rightarrow> world" where
  "update_enemy i f w = w\<lparr>enemies := (enemies w)[i := f (enemies w ! i)]\<rparr>"

text \<open>
  The bodies of the observers. \<open>emit\<close> is \<open>this.eventBus.emitEvent\<close>, which the
  WIN and LOSE observers of the game call and await.
\<close>

definition call_observer ::
  "(event \<Rightarrow> source \<Rightarrow> jsval \<Rightarrow> world \<Rightarrow> world option) \<Rightarrow>
   observer \<Rightarrow> event \<Rightarrow> source \<Rightarrow> jsval \<Rightarrow> world \<Rightarrow> world option" where
  "call_observer emit ob ev src params w =
     (case ob of
        FieldReset \<Rightarrow> Some (w\<lparr>root := (root w)\<lparr>drawWin := False, drawLose := False\<rparr>\<rparr>)
      | FieldWin \<Rightarrow> Some (w\<lparr>root := (root w)\<lparr>drawWin := True\<rparr>\<rparr>)
      | FieldLose \<Rightarrow> Some (w\<lparr>root := (root w)\<lparr>drawLose := True\<rparr>\<rparr>)
      | PlayerChangeCharacter \<Rightarrow> Some (w\<lparr>player := (player w)\<lparr>charImage := params\<rparr>\<rparr>)
      | PlayerReset \<Rightarrow>
          Some (w\<lparr>player := (player w)
            \<lparr>p_x := fst (initialSquarePosition (player w)),
             p_y := snd (initialSquarePosition (player w)),
             p_stopped := False\<rparr>\<rparr>)
      | PlayerStop \<Rightarrow> Some (w\<lparr>player := (player w)\<lparr>p_stopped := True\<rparr>\<rparr>)
      | EnemyReset i \<Rightarrow> Some (update_enemy i (\<lambda>e. e\<lparr>e_x := - 101, e_stopped := False\<rparr>) w)
      | EnemyStop i \<Rightarrow> Some (update_enemy i (\<lambda>e. e\<lparr>e_stopped := True\<rparr>) w)
      | GameWin \<Rightarrow>
          (case emit STOP TheGame EmptyObject w of
             None \<Rightarrow> None
           | Some w1 \<Rightarrow> Some (w1\<lparr>timers := timers w1 @ [\<lparr>duration = 2000, emits = RESET\<rparr>]\<rparr>))
      | GameLose \<Rightarrow>
          (case emit STOP TheGame EmptyObject w of
             None \<Rightarrow> None
           | Some w1 \<Rightarrow> Some (w1\<lparr>timers := timers w1 @ [\<lparr>duration = 2000, emits = RESET\<rparr>]\<rparr>)))"

text \<open>
  \<open>emitEvent\<close>. An observer may itself emit, so the first argument bounds the nesting
  depth of emits; \<open>None\<close> means the bound was reached.
\<close>

primrec emitEvent ::
  "nat \<Rightarrow> observer eventMap \<Rightarrow> event \<Rightarrow> source \<Rightarrow> jsval \<Rightarrow> world \<Rightarrow> world option" where
  "emitEvent 0 events ev src params w = None"
| "emitEvent (Suc n) events ev src params w =
     (let w0 = w\<lparr>published := published w @ [(ev, src, params)]\<rparr>
      in case events ev of
           None \<Rightarrow> Some w0
         | Some observers \<Rightarrow>
             for_await (\<lambda>observer. call_observer (emitEvent n events) observer ev src params)
               observers w0)"

section \<open>Player\<close>

definition moveUp :: "nat \<Rightarrow> observer eventMap \<Rightarrow> world \<Rightarrow> world option" where
  "moveUp n events w =
     (if p_stopped (player w) then Some w
      else
        let p = player w;
            p1 = (if p_y p > 0 then p\<lparr>p_y := p_y p - 1\<rparr> else p);
            w1 = w\<lparr>player := p1\<rparr>
        in if p_y p1 = 0 then emitEvent n events WIN ThePlayer EmptyObject w1 else Some w1)"

definition moveDown :: "Player \<Rightarrow> Player" where
  "moveDown p =
     (if p_stopped p then p else if p_y p < 5 then p\<lparr>p_y := p_y p + 1\<rparr> else p)"

definition moveLeft :: "Player \<Rightarrow> Player" where
  "moveLeft p =
     (if p_stopped p then p else if p_x p > 0 then p\<lparr>p_x := p_x p - 1\<rparr> else p)"

definition moveRight :: "Player \<Rightarrow> Player" where
  "moveRight p =
     (if p_stopped p then p else if p_x p < 4 then p\<lparr>p_x := p_x p + 1\<rparr> else p)"

definition Player_getSize :: point where
  "Player_getSize = (101, 83)"

definition Player_getPosition :: "Player \<Rightarrow> point" where
  "Player_getPosition p =
     (js_mul (of_int (p_x p)) 101, js_sub (js_mul (of_int (p_y p)) 83) 25)"

section \<open>Enemy\<close>

definition Enemy_getPosition :: "Enemy \<Rightarrow> point" where
  "Enemy_getPosition e = (e_x e, js_sub (js_mul (of_int (e_row e)) 83) 25)"

definition Enemy_getSize :: point where
  "Enemy_getSize = (101, 83)"

text \<open>\<open>now\<close> is the value of \<open>Date.now()\<close>, in milliseconds.\<close>

definition updatePosition :: "int \<Rightarrow> Enemy \<Rightarrow> Enemy" where
  "updatePosition now e =
     (if e_stopped e then e
      else
        let timePassed = js_div (js_sub (of_int now) (of_int (lastUpdate e))) 1000;
            e1 = e\<lparr>lastUpdate := now\<rparr>;
            e2 = e1\<lparr>e_x := js_add (e_x e1) (js_mul (increase e1) timePassed)\<rparr>
        in if e_x e2 > 505 then e2\<lparr>e_x := - 101\<rparr> else e2)"

section \<open>Collision detection and drawing\<close>

text \<open>
  The siblings of the player (the children of its parent other than itself) are the
  obstacles. The loop returns at the first obstacle that collides.
\<close>

primrec collides_any :: "GameElementBoundaries \<Rightarrow> Enemy list \<Rightarrow> bool" where
  "collides_any myBoundary [] = False"
| "collides_any myBoundary (element # rest) =
     (if checkCollision myBoundary (newBoundaries (Enemy_getPosition element) Enemy_getSize 0 0 0 0)
      then True else collides_any myBoundary rest)"

definition collisionDetection :: "world \<Rightarrow> bool" where
  "collisionDetection w =
     collides_any (newBoundaries (Player_getPosition (player w)) Player_getSize 22 22 9 30)
       (enemies w)"

definition Player_drawItself :: "nat \<Rightarrow> observer eventMap \<Rightarrow> world \<Rightarrow> world option" where
  "Player_drawItself n events w =
     (if collisionDetection w \<and> \<not> p_stopped (player w)
      then emitEvent n events LOSE ThePlayer EmptyObject w else Some w)"

text \<open>
  One pass of \<open>root.draw()\<close>: the field paints only; then the children draw in order,
  the player first, then each obstacle, which updates its position. The canvas is not
  modelled. All obstacles of one pass read the same clock value.
\<close>

definition draw :: "nat \<Rightarrow> observer eventMap \<Rightarrow> int \<Rightarrow> world \<Rightarrow> world option" where
  "draw n events now w =
     (case Player_drawItself n events w of
        None \<Rightarrow> None
      | Some w1 \<Rightarrow> Some (w1\<lparr>enemies := map (updatePosition now) (enemies w1)\<rparr>))"

section \<open>The game (class FroggerGame)\<close>

definition Field_register :: "observer eventMap \<Rightarrow> observer eventMap" where
  "Field_register events =
     observeEvent LOSE FieldLose (observeEvent WIN FieldWin (observeEvent RESET FieldReset events))"

definition Player_register :: "observer eventMap \<Rightarrow> observer eventMap" where
  "Player_register events =
     observeEvent STOP PlayerStop
       (observeEvent RESET PlayerReset
         (observeEvent CHANGE_CHARACTER PlayerChangeCharacter events))"

definition Enemy_register :: "nat \<Rightarrow> observer eventMap \<Rightarrow> observer eventMap" where
  "Enemy_register i events =
     observeEvent STOP (EnemyStop i) (observeEvent RESET (EnemyReset i) events)"

definition registerGameEvents :: "observer eventMap \<Rightarrow> observer eventMap" where
  "registerGameEvents events = observeEvent LOSE GameLose (observeEvent WIN GameWin events)"

definition newPlayer :: "int \<times> int \<Rightarrow> Player" where
  "newPlayer pos =
     \<lparr> p_x = fst pos, p_y = snd pos, charImage = CHAR_BOY, p_stopped = False,
       initialSquarePosition = pos \<rparr>"

definition newEnemy :: "int \<Rightarrow> real \<Rightarrow> int \<Rightarrow> Enemy" where
  "newEnemy row incr now =
     \<lparr> e_row = row, e_x = - 101, increase = incr, lastUpdate = now, e_stopped = False \<rparr>"

text \<open>
  The constructor of \<open>FroggerGame\<close>: the event bus after all registrations, in the order
  the constructors run, and the initial state. \<open>now\<close> is the clock at construction.
\<close>

definition FroggerGame_eventBus :: "observer eventMap" where
  "FroggerGame_eventBus =
     registerGameEvents
       (Enemy_register 3 (Enemy_register 2 (Enemy_register 1 (Enemy_register 0
          (Player_register (Field_register Map.empty))))))"

definition FroggerGame_world :: "int \<Rightarrow> world" where
  "FroggerGame_world now =
     \<lparr> root = \<lparr>drawWin = False, drawLose = False\<rparr>,
       player = newPlayer (2, 5),
       enemies = [newEnemy 1 20 now, newEnemy 2 200 now, newEnemy 1 400 now, newEnemy 3 300 now],
       timers = [],
       published = [] \<rparr>"

text \<open>
  What the browser delivers to the game: a key press, an animation frame (with the clock
  value the obstacles read), the expiry of the oldest pending timeout, and a change of the
  character combobox.
\<close>

datatype input =
    KeyUp | KeyDown | KeyLeft | KeyRight
  | AnimationFrame int
  | TimeoutFired
  | CharacterSelected string

definition step :: "nat \<Rightarrow> observer eventMap \<Rightarrow> input \<Rightarrow> world \<Rightarrow> world option" where
  "step n events i w =
     (case i of
        KeyUp \<Rightarrow> moveUp n events w
      | KeyDown \<Rightarrow> Some (w\<lparr>player := moveDown (player w)\<rparr>)
      | KeyLeft \<Rightarrow> Some (w\<lparr>player := moveLeft (player w)\<rparr>)
      | KeyRight \<Rightarrow> Some (w\<lparr>player := moveRight (player w)\<rparr>)
      | AnimationFrame now \<Rightarrow> draw n events now w
      | TimeoutFired \<Rightarrow>
          (case timers w of
             [] \<Rightarrow> Some w
           | t # ts \<Rightarrow> emitEvent n events (emits t) TheGame EmptyObject (w\<lparr>timers := ts\<rparr>))
      | CharacterSelected url \<Rightarrow> emitEvent n events CHANGE_CHARACTER TheCombobox (Str url) w)"

fun run :: "nat \<Rightarrow> observer eventMap \<Rightarrow> input list \<Rightarrow> world \<Rightarrow> world option" where
  "run n events [] w = Some w"
| "run n events (i # is) w =
     (case step n events i w of None \<Rightarrow> None | Some w1 \<Rightarrow> run n events is w1)"

section \<open>Notions used to state the properties\<close>

text \<open>
  The 5-column by 6-row grid: column in [0,4], row in [0,5].
\<close>

definition in_grid :: "Player \<Rightarrow> bool" where
  "in_grid p = (0 \<le> p_x p \<and> p_x p \<le> 4 \<and> 0 \<le> p_y p \<and> p_y p \<le> 5)"

text \<open>
  A key press whose move would take the player out of the grid.
\<close>

definition would_exit_grid :: "input \<Rightarrow> Player \<Rightarrow> bool" where
  "would_exit_grid i p =
     (case i of
        KeyUp \<Rightarrow> p_y p - 1 < 0
      | KeyDown \<Rightarrow> p_y p + 1 > 5
      | KeyLeft \<Rightarrow> p_x p - 1 < 0
      | KeyRight \<Rightarrow> p_x p + 1 > 4
      | _ \<Rightarrow> False)"

definition is_move :: "input \<Rightarrow> bool" where
  "is_move i = (i = KeyUp \<or> i = KeyDown \<or> i = KeyLeft \<or> i = KeyRight)"

text \<open>
  What every state of the running game satisfies: the four obstacles exist, the
  player's RESET closure holds the position the game constructed it with, the player is
  in the grid, a player on row 0 is frozen, and a RESET is pending exactly while the player
  is frozen.
\<close>

definition game_inv :: "world \<Rightarrow> bool" where
  "game_inv w =
     (length (enemies w) = 4 \<and> initialSquarePosition (player w) = (2, 5) \<and> in_grid (player w)
      \<and> (p_y (player w) = 0 \<longrightarrow> p_stopped (player w))
      \<and> timers w = (if p_stopped (player w) then [\<lparr>duration = 2000, emits = RESET\<rparr>] else []))"

text \<open>
  A sequence of \<open>observeEvent\<close> calls on a new bus, and the order in which the spec says
  the observers of one event are then invoked: each registered observer once, in the order
  of its first registration.
\<close>

definition register_all :: "(event \<times> 'o) list \<Rightarrow> 'o eventMap" where
  "register_all regs = fold (\<lambda>r events. observeEvent (fst r) (snd r) events) regs Map.empty"

definition registration_order :: "(event \<times> 'o) list \<Rightarrow> event \<Rightarrow> 'o list" where
  "registration_order regs ev = rev (remdups (rev (map snd (filter (\<lambda>r. fst r = ev) regs))))"

text \<open>
  Sequential fan-out, as the spec words it: the observers are invoked one at a time, in
  the order of the list, each on the state the previous one left on completion.
\<close>

inductive sequential_fanout :: "('o \<Rightarrow> 's \<Rightarrow> 's option) \<Rightarrow> 'o list \<Rightarrow> 's \<Rightarrow> 's \<Rightarrow> bool" where
  fanout_done: "sequential_fanout invoke [] s s"
| fanout_next:
    "invoke ob s = Some s1 \<Longrightarrow> sequential_fanout invoke obs s1 s2 \<Longrightarrow>
     sequential_fanout invoke (ob # obs) s s2"

section \<open>Rounding to a double\<close>

declare bit_length.simps [simp del]

lemma bit_length_numeral_simps:
  "bit_length 0 = 0"
  "bit_length 1 = 1"
  "bit_length (Suc 0) = 1"
  "bit_length (numeral Num.One) = 1"
  "bit_length (numeral (Num.Bit0 k)) = Suc (bit_length (numeral k))"
  "bit_length (numeral (Num.Bit1 k)) = Suc (bit_length (numeral k))"
  by (subst bit_length.simps, simp add: bit_length.simps [of 0])+

lemmas double_eval = double_def expo_def pow2_def round_half_even_def Let_def bit_length_numeral_simps


lemma pow2_powr: "pow2 e = 2 powr (of_int e)"
proof (cases "0 \<le> e")
  case True
  then show ?thesis by (simp add: pow2_def powr_realpow [symmetric])
next
  case False
  then have "(2::real) powr (of_int e) = 1 / 2 powr (of_int (- e))"
    by (simp add: powr_minus_divide)
  also have "\<dots> = 1 / 2 ^ nat (- e)"
    using False by (simp add: powr_realpow [symmetric])
  finally show ?thesis using False by (simp add: pow2_def)
qed

lemma pow2_pos: "0 < pow2 e"
  by (simp add: pow2_powr)

lemma pow2_add: "pow2 (a + b) = pow2 a * pow2 b"
  by (simp add: pow2_powr powr_add)

lemma pow2_mono: "a \<le> b \<Longrightarrow> pow2 a \<le> pow2 b"
  by (simp add: pow2_powr)

lemma pow2_less_cancel: "pow2 a < pow2 b \<Longrightarrow> a < b"
  by (simp add: pow2_powr)

lemma pow2_nat: "pow2 (int n) = 2 ^ n"
  by (simp add: pow2_def)

lemma bit_length_bounds:
  "0 < n \<Longrightarrow> 2 ^ (bit_length n - 1) \<le> n \<and> n < 2 ^ bit_length n"
proof (induction n rule: bit_length.induct)
  case (1 n)
  show ?case
  proof (cases "n div 2 = 0")
    case True
    with "1.prems" have "n = 1" by (simp add: div_eq_0_iff) 
    then show ?thesis by (simp add: bit_length_numeral_simps)
  next
    case False
    with 1 have IH: "2 ^ (bit_length (n div 2) - 1) \<le> n div 2" "n div 2 < 2 ^ bit_length (n div 2)"
      by auto
    have pos: "0 < bit_length (n div 2)"
      using False by (subst bit_length.simps) simp
    have bl: "bit_length n = Suc (bit_length (n div 2))"
      using "1.prems" by (subst bit_length.simps) simp
    from pos obtain k where k: "bit_length (n div 2) = Suc k" by (cases "bit_length (n div 2)") auto
    from IH k have "2 ^ k \<le> n div 2" "n div 2 < 2 ^ Suc k" by simp_all
    then have "2 * 2 ^ k \<le> n" "n < 2 * 2 ^ Suc k" by linarith+
    then show ?thesis by (simp add: bl k)
  qed
qed

lemma expo_bounds:
  assumes "0 < x"
  shows "pow2 (expo x) \<le> x" and "x < pow2 (expo x + 1)"
proof -
  have "pow2 (expo x) \<le> x \<and> x < pow2 (expo x + 1)"
  proof (cases "1 \<le> x")
    case True
    define n where "n = nat \<lfloor>x\<rfloor>"
    have npos: "0 < n" using True by (simp add: n_def)
    have rn: "real n = of_int \<lfloor>x\<rfloor>" using True by (simp add: n_def)
    have fl: "real n \<le> x" "x < real n + 1"
      unfolding rn by linarith+
    from bit_length_bounds [OF npos] have b: "2 ^ (bit_length n - 1) \<le> n" "n < 2 ^ bit_length n"
      by simp_all
    from npos have blpos: "0 < bit_length n" by (subst bit_length.simps) simp
    have e: "expo x = int (bit_length n) - 1" using True by (simp add: expo_def n_def)
    have e1: "expo x = int (bit_length n - 1)" using blpos e by simp
    have "pow2 (expo x) = 2 ^ (bit_length n - 1)" unfolding e1 by (rule pow2_nat)
    also have "\<dots> \<le> real n"
    proof -
      from b(1) have "real (2 ^ (bit_length n - 1)) \<le> real n" by (simp only: of_nat_le_iff)
      then show ?thesis by simp
    qed
    finally have lo: "pow2 (expo x) \<le> x" using fl by simp
    have "n + 1 \<le> 2 ^ bit_length n" using b(2) by simp
    then have "real (n + 1) \<le> real (2 ^ bit_length n)" by (simp only: of_nat_le_iff)
    then have "real n + 1 \<le> 2 ^ bit_length n" by simp
    moreover have "pow2 (expo x + 1) = 2 ^ bit_length n"
      using pow2_nat [of "bit_length n"] e by simp
    ultimately have hi: "x < pow2 (expo x + 1)" using fl by simp
    from lo hi show ?thesis by simp
  next
    case False
    then have x1: "x < 1" by simp
    define c where "c = \<lceil>1 / x\<rceil>"
    define n where "n = nat (c - 1)"
    have inv: "1 < 1 / x" using assms x1 by simp
    then have c2: "2 \<le> c" unfolding c_def by linarith
    then have npos: "0 < n" by (simp add: n_def)
    have nc: "int n = c - 1" using c2 by (simp add: n_def)
    have cl: "1 / x \<le> of_int c" "of_int c - 1 < 1 / x" unfolding c_def by linarith+
    from bit_length_bounds [OF npos] have b: "2 ^ (bit_length n - 1) \<le> n" "n < 2 ^ bit_length n"
      by simp_all
    from npos have blpos: "0 < bit_length n" by (subst bit_length.simps) simp
    define k where "k = bit_length n"
    have e: "expo x = - int k" using False by (simp add: expo_def n_def c_def k_def)
    have "int n < int (2 ^ k)" using b(2) unfolding k_def by (simp only: of_nat_less_iff)
    then have "c \<le> 2 ^ k" using nc by simp
    then have "real_of_int c \<le> real_of_int (2 ^ k)" by (simp only: of_int_le_iff)
    then have rc: "real_of_int c \<le> 2 ^ k" by simp
    from cl(1) rc have "1 / x \<le> 2 ^ k" by linarith
    then have "1 / 2 ^ k \<le> x" using assms
      by (simp add: field_simps)
    moreover have "pow2 (- int k) = 1 / 2 ^ k" by (simp add: pow2_def)
    ultimately have lo: "pow2 (expo x) \<le> x" by (simp add: e)
    have "int (2 ^ (k - 1)) \<le> int n" using b(1) unfolding k_def by (simp only: of_nat_le_iff)
    then have "2 ^ (k - 1) \<le> c - 1" using nc by simp
    then have "real_of_int (2 ^ (k - 1)) \<le> real_of_int (c - 1)" by (simp only: of_int_le_iff)
    then have rc2: "2 ^ (k - 1) \<le> real_of_int c - 1" by simp
    from cl(2) rc2 have "2 ^ (k - 1) < 1 / x" by linarith
    then have "x < 1 / 2 ^ (k - 1)" using assms
      by (simp add: field_simps)
    moreover have "pow2 (- int k + 1) = 1 / 2 ^ (k - 1)"
      using blpos unfolding k_def [symmetric] by (cases k) (simp_all add: pow2_def)
    ultimately have hi: "x < pow2 (expo x + 1)" by (simp add: e)
    from lo hi show ?thesis by simp
  qed
  then show "pow2 (expo x) \<le> x" and "x < pow2 (expo x + 1)" by simp_all
qed

lemma round_half_even_cases:
  "round_half_even m = \<lfloor>m\<rfloor> \<or> round_half_even m = \<lfloor>m\<rfloor> + 1"
  by (simp add: round_half_even_def Let_def)

lemma round_half_even_int [simp]: "round_half_even (of_int k) = k"
  by (simp add: round_half_even_def Let_def)

lemma round_half_even_mono:
  assumes "a \<le> b"
  shows "round_half_even a \<le> round_half_even b"
proof (cases "\<lfloor>a\<rfloor> = \<lfloor>b\<rfloor>")
  case True
  then have "a - of_int \<lfloor>a\<rfloor> \<le> b - of_int \<lfloor>b\<rfloor>" using assms by simp
  with True show ?thesis
    by (auto simp: round_half_even_def Let_def)
next
  case False
  with assms have "\<lfloor>a\<rfloor> < \<lfloor>b\<rfloor>" using floor_mono [OF assms] by linarith
  moreover have "round_half_even a \<le> \<lfloor>a\<rfloor> + 1" using round_half_even_cases [of a] by linarith
  moreover have "\<lfloor>b\<rfloor> \<le> round_half_even b" using round_half_even_cases [of b] by linarith
  ultimately show ?thesis by linarith
qed

lemma round_half_even_ge: "of_int k \<le> m \<Longrightarrow> k \<le> round_half_even m"
  using round_half_even_mono [of "of_int k" m] by simp

lemma round_half_even_le: "m \<le> of_int k \<Longrightarrow> round_half_even m \<le> k"
  using round_half_even_mono [of m "of_int k"] by simp

lemma round_half_even_minus: "round_half_even (- m) = - round_half_even m"
proof (cases "m = of_int \<lfloor>m\<rfloor>")
  case True
  then obtain k where "m = of_int k" ..
  then have "- m = of_int (- k)" by simp
  then show ?thesis using \<open>m = of_int k\<close> by (simp only: round_half_even_int)
next
  case False
  then have fl: "\<lfloor>- m\<rfloor> = - \<lfloor>m\<rfloor> - 1"
    by (simp add: floor_minus ceiling_altdef)
  have d: "0 < m - of_int \<lfloor>m\<rfloor>" using False by linarith
  show ?thesis
    using d by (auto simp: round_half_even_def Let_def fl)
qed

lemma double_minus: "double (- x) = - double x"
  by (simp add: double_def Let_def round_half_even_minus)

lemma double_nonneg:
  assumes "0 \<le> x"
  shows "0 \<le> double x"
proof (cases "x = 0")
  case True
  then show ?thesis by (simp add: double_def)
next
  case False
  define u where "u = pow2 (max (expo \<bar>x\<bar>) (- 1022) - 52)"
  have u: "0 < u" by (simp add: u_def pow2_pos)
  have "of_int 0 \<le> x / u" using assms u by simp
  then have "0 \<le> round_half_even (x / u)" by (rule round_half_even_ge)
  then show ?thesis using False u by (simp add: double_def Let_def u_def [symmetric])
qed

lemma expo_mono:
  assumes "0 < x" and "x \<le> y"
  shows "expo x \<le> expo y"
proof -
  have "pow2 (expo x) \<le> x" using assms(1) by (rule expo_bounds)
  also have "x \<le> y" by fact
  also have "y < pow2 (expo y + 1)" using assms by (intro expo_bounds) simp
  finally have "expo x < expo y + 1" by (rule pow2_less_cancel)
  then show ?thesis by simp
qed

lemma double_upper:
  assumes "0 < x"
  shows "double x \<le> pow2 (max (expo x) (- 1022) + 1)"
proof -
  define E where "E = max (expo x) (- 1022)"
  define u where "u = pow2 (E - 52)"
  have u: "0 < u" by (simp add: u_def pow2_pos)
  have "x < pow2 (expo x + 1)" using assms by (rule expo_bounds)
  also have "\<dots> \<le> pow2 (E + 1)" by (rule pow2_mono) (simp add: E_def)
  also have "pow2 (E + 1) = pow2 53 * u"
  proof -
    have "pow2 (53 + (E - 52)) = pow2 53 * u" unfolding u_def by (rule pow2_add)
    moreover have "53 + (E - 52) = E + 1" by simp
    ultimately show ?thesis by simp
  qed
  finally have "x / u \<le> pow2 53" using u by (simp add: field_simps)
  also have "pow2 53 = of_int (2 ^ 53)" by (simp add: pow2_def)
  finally have "round_half_even (x / u) \<le> 2 ^ 53" by (rule round_half_even_le)
  then have "real_of_int (round_half_even (x / u)) \<le> real_of_int (2 ^ 53)"
    by (simp only: of_int_le_iff)
  then have "of_int (round_half_even (x / u)) * u \<le> of_int (2 ^ 53) * u"
    using u by (simp only: mult_le_cancel_right_pos)
  also have "of_int (2 ^ 53) * u = pow2 (E + 1)"
  proof -
    have "pow2 (53 + (E - 52)) = pow2 53 * u" unfolding u_def by (rule pow2_add)
    moreover have "53 + (E - 52) = E + 1" by simp
    ultimately have "pow2 (E + 1) = pow2 53 * u" by simp
    also have "pow2 53 = of_int (2 ^ 53)" by (simp add: pow2_def)
    finally show ?thesis by simp
  qed
  finally have "of_int (round_half_even (x / u)) * u \<le> pow2 (E + 1)" .
  moreover have "double x = of_int (round_half_even (x / u)) * u"
    using assms by (simp add: double_def Let_def E_def u_def)
  ultimately show ?thesis by (simp add: E_def)
qed

lemma double_lower:
  assumes "0 < x" and "- 1022 \<le> expo x"
  shows "pow2 (expo x) \<le> double x"
proof -
  define E where "E = expo x"
  define u where "u = pow2 (E - 52)"
  have u: "0 < u" by (simp add: u_def pow2_pos)
  have mx: "max (expo x) (- 1022) = E" using assms(2) by (simp add: E_def)
  have eq: "pow2 E = of_int (2 ^ 52) * u"
  proof -
    have "pow2 (52 + (E - 52)) = pow2 52 * u" unfolding u_def by (rule pow2_add)
    then have "pow2 E = pow2 52 * u" by simp
    also have "pow2 52 = of_int (2 ^ 52)" by (simp add: pow2_def)
    finally show ?thesis .
  qed
  have "pow2 E \<le> x" unfolding E_def using assms(1) by (rule expo_bounds)
  then have "of_int (2 ^ 52) \<le> x / u" unfolding eq using u by (simp add: field_simps)
  then have "2 ^ 52 \<le> round_half_even (x / u)" by (rule round_half_even_ge)
  then have "real_of_int (2 ^ 52) \<le> real_of_int (round_half_even (x / u))"
    by (simp only: of_int_le_iff)
  then have "of_int (2 ^ 52) * u \<le> of_int (round_half_even (x / u)) * u"
    using u by (simp only: mult_le_cancel_right_pos)
  then have "pow2 E \<le> of_int (round_half_even (x / u)) * u" by (simp only: eq)
  moreover have "double x = of_int (round_half_even (x / u)) * u"
    using assms(1) mx by (simp add: double_def Let_def u_def)
  ultimately show ?thesis by (simp add: E_def)
qed

lemma double_mono_pos:
  assumes "0 < x" and "x \<le> y"
  shows "double x \<le> double y"
proof -
  have ypos: "0 < y" using assms by simp
  define Ex where "Ex = max (expo x) (- 1022)"
  define Ey where "Ey = max (expo y) (- 1022)"
  have le: "Ex \<le> Ey" using expo_mono [OF assms] by (simp add: Ex_def Ey_def)
  show ?thesis
  proof (cases "Ex = Ey")
    case True
    define u where "u = pow2 (Ex - 52)"
    have u: "0 < u" by (simp add: u_def pow2_pos)
    have "x / u \<le> y / u" using assms(2) u by (simp add: divide_right_mono)
    then have "round_half_even (x / u) \<le> round_half_even (y / u)" by (rule round_half_even_mono)
    then have "real_of_int (round_half_even (x / u)) \<le> real_of_int (round_half_even (y / u))"
      by (simp only: of_int_le_iff)
    then have "of_int (round_half_even (x / u)) * u \<le> of_int (round_half_even (y / u)) * u"
      using u by (simp only: mult_le_cancel_right_pos)
    moreover have "double x = of_int (round_half_even (x / u)) * u"
      using assms(1) by (simp add: double_def Let_def u_def Ex_def)
    moreover have "double y = of_int (round_half_even (y / u)) * u"
      using ypos True by (simp add: double_def Let_def u_def Ey_def)
    ultimately show ?thesis by simp
  next
    case False
    with le have lt: "Ex < Ey" by simp
    then have ey: "Ey = expo y" "- 1022 \<le> expo y" by (auto simp: Ex_def Ey_def)
    have "double x \<le> pow2 (Ex + 1)" unfolding Ex_def using assms(1) by (rule double_upper)
    also have "\<dots> \<le> pow2 (expo y)" using lt ey(1) by (intro pow2_mono) simp
    also have "\<dots> \<le> double y" using ypos ey(2) by (rule double_lower)
    finally show ?thesis .
  qed
qed

lemma double_mono:
  assumes "x \<le> y"
  shows "double x \<le> double y"
proof -
  consider "0 < x" | "x = 0" | "x < 0" "0 \<le> y" | "x < 0" "y < 0" by linarith
  then show ?thesis
  proof cases
    case 1
    then show ?thesis using assms by (rule double_mono_pos)
  next
    case 2
    then show ?thesis using assms double_nonneg [of y] by (simp add: double_def)
  next
    case 3
    have "0 \<le> double (- x)" using 3 by (intro double_nonneg) simp
    then have "double x \<le> 0" by (simp add: double_minus)
    also have "0 \<le> double y" using 3 by (intro double_nonneg)
    finally show ?thesis .
  next
    case 4
    then have "double (- y) \<le> double (- x)" using assms by (intro double_mono_pos) simp_all
    then show ?thesis by (simp add: double_minus)
  qed
qed

lemma js_add_mono: "a \<le> b \<Longrightarrow> js_add a c \<le> js_add b c"
  by (simp add: js_add_def double_mono)

lemma js_add_mono2: "a \<le> b \<Longrightarrow> js_add c a \<le> js_add c b"
  by (simp add: js_add_def double_mono)

lemmas js_defs = js_add_def js_sub_def js_mul_def js_div_def

section \<open>The event bus of the game\<close>


lemmas event_defs = STOP_def WIN_def LOSE_def CHANGE_CHARACTER_def RESET_def
lemmas register_defs = FroggerGame_eventBus_def registerGameEvents_def Enemy_register_def
  Player_register_def Field_register_def observeEvent_def Set_add_def

lemma bus_WIN: "FroggerGame_eventBus WIN = Some [FieldWin, GameWin]"
  by (simp add: register_defs event_defs)

lemma bus_LOSE: "FroggerGame_eventBus LOSE = Some [FieldLose, GameLose]"
  by (simp add: register_defs event_defs)

lemma bus_STOP:
  "FroggerGame_eventBus STOP = Some [PlayerStop, EnemyStop 0, EnemyStop 1, EnemyStop 2, EnemyStop 3]"
  by (simp add: register_defs event_defs)

lemma bus_RESET:
  "FroggerGame_eventBus RESET =
     Some [FieldReset, PlayerReset, EnemyReset 0, EnemyReset 1, EnemyReset 2, EnemyReset 3]"
  by (simp add: register_defs event_defs)

lemma bus_CHANGE_CHARACTER: "FroggerGame_eventBus CHANGE_CHARACTER = Some [PlayerChangeCharacter]"
  by (simp add: register_defs event_defs)

lemma bus_other:
  "ev \<noteq> WIN \<Longrightarrow> ev \<noteq> LOSE \<Longrightarrow> ev \<noteq> STOP \<Longrightarrow> ev \<noteq> RESET \<Longrightarrow> ev \<noteq> CHANGE_CHARACTER \<Longrightarrow>
   FroggerGame_eventBus ev = None"
  by (simp add: register_defs event_defs)

lemma length4E:
  assumes "length es = 4"
  obtains a b c d where "es = [a, b, c, d]"
  using assms by (auto simp: length_Suc_conv numeral_eq_Suc)

lemma emit_STOP:
  assumes "length (enemies w) = 4"
  shows "emitEvent (Suc n) FroggerGame_eventBus STOP src params w =
    Some (w\<lparr>player := (player w)\<lparr>p_stopped := True\<rparr>,
            enemies := map (\<lambda>e. e\<lparr>e_stopped := True\<rparr>) (enemies w),
            published := published w @ [(STOP, src, params)]\<rparr>)"
proof -
  obtain a b c d where es: "enemies w = [a, b, c, d]" using assms by (rule length4E)
  show ?thesis
    by (simp add: bus_STOP call_observer_def update_enemy_def es)
qed

lemma emit_RESET:
  assumes "length (enemies w) = 4"
  shows "emitEvent (Suc n) FroggerGame_eventBus RESET src params w =
    Some (w\<lparr>root := (root w)\<lparr>drawWin := False, drawLose := False\<rparr>,
            player := (player w)\<lparr>p_x := fst (initialSquarePosition (player w)),
                                 p_y := snd (initialSquarePosition (player w)),
                                 p_stopped := False\<rparr>,
            enemies := map (\<lambda>e. e\<lparr>e_x := - 101, e_stopped := False\<rparr>) (enemies w),
            published := published w @ [(RESET, src, params)]\<rparr>)"
proof -
  obtain a b c d where es: "enemies w = [a, b, c, d]" using assms by (rule length4E)
  show ?thesis
    by (simp add: bus_RESET call_observer_def update_enemy_def es)
qed

lemma emit_CHANGE_CHARACTER:
  "emitEvent (Suc n) FroggerGame_eventBus CHANGE_CHARACTER src params w =
    Some (w\<lparr>player := (player w)\<lparr>charImage := params\<rparr>,
            published := published w @ [(CHANGE_CHARACTER, src, params)]\<rparr>)"
  by (simp add: bus_CHANGE_CHARACTER call_observer_def)

lemma emit_WIN:
  assumes "length (enemies w) = 4"
  shows "emitEvent (Suc (Suc n)) FroggerGame_eventBus WIN src params w =
    Some (w\<lparr>root := (root w)\<lparr>drawWin := True\<rparr>,
            player := (player w)\<lparr>p_stopped := True\<rparr>,
            enemies := map (\<lambda>e. e\<lparr>e_stopped := True\<rparr>) (enemies w),
            timers := timers w @ [\<lparr>duration = 2000, emits = RESET\<rparr>],
            published := published w @ [(WIN, src, params), (STOP, TheGame, EmptyObject)]\<rparr>)"
  apply (subst emitEvent.simps)
  apply (simp add: bus_WIN call_observer_def emit_STOP assms del: emitEvent.simps)
  done

lemma emit_LOSE:
  assumes "length (enemies w) = 4"
  shows "emitEvent (Suc (Suc n)) FroggerGame_eventBus LOSE src params w =
    Some (w\<lparr>root := (root w)\<lparr>drawLose := True\<rparr>,
            player := (player w)\<lparr>p_stopped := True\<rparr>,
            enemies := map (\<lambda>e. e\<lparr>e_stopped := True\<rparr>) (enemies w),
            timers := timers w @ [\<lparr>duration = 2000, emits = RESET\<rparr>],
            published := published w @ [(LOSE, src, params), (STOP, TheGame, EmptyObject)]\<rparr>)"
  apply (subst emitEvent.simps)
  apply (simp add: bus_LOSE call_observer_def emit_STOP assms del: emitEvent.simps)
  done

lemma emit_other:
  assumes "ev \<noteq> WIN" "ev \<noteq> LOSE" "ev \<noteq> STOP" "ev \<noteq> RESET" "ev \<noteq> CHANGE_CHARACTER"
  shows "emitEvent (Suc n) FroggerGame_eventBus ev src params w =
    Some (w\<lparr>published := published w @ [(ev, src, params)]\<rparr>)"
  by (simp add: bus_other assms)

section \<open>Properties of the collision predicate\<close>

lemmas geometry_defs = checkCollision_def checkTopRightCollision_def checkTopLeftCollision_def
  checkBottomRightCollision_def checkBottomLeftCollision_def newBoundaries_def

text \<open>
  C1 does not hold of the code. The threshold is documented as the number of pixels an
  element may invade another before this counts as a collision. With tolerance 5 on all
  four sides and two rectangles of the sprites' size on the same row, an overlap of 4
  pixels on the horizontal axis does not register, but an overlap of exactly 5 pixels
  already does, as does one of 6: the comparisons with the thresholds are inclusive. All
  numbers here are small integers, on which the arithmetic is exact.
\<close>

theorem overlap_of_exactly_t_collides:
  "\<not> checkCollision (newBoundaries (0, 0) (101, 83) 5 5 5 5) (newBoundaries (97, 0) (101, 83) 0 0 0 0)
   \<and> checkCollision (newBoundaries (0, 0) (101, 83) 5 5 5 5) (newBoundaries (96, 0) (101, 83) 0 0 0 0)
   \<and> checkCollision (newBoundaries (0, 0) (101, 83) 5 5 5 5) (newBoundaries (95, 0) (101, 83) 0 0 0 0)"
  by (simp add: geometry_defs js_defs double_eval)

text \<open>
  C8. The bottom-left corner test compares the other rectangle's bottom-left and top-right
  corners with this rectangle's bottom-left corner, with \<open>leftThreshold\<close> in the
  horizontal condition and \<open>bottomThreshold\<close> in the vertical one. Its result does not
  depend on \<open>rightThreshold\<close> (nor on \<open>topThreshold\<close>), and it does change with
  \<open>leftThreshold\<close> and with \<open>bottomThreshold\<close>.
\<close>

theorem bottomLeft_check_uses_left_and_bottom:
  "(checkBottomLeftCollision this (blX, blY) (trX, trY) \<longleftrightarrow>
      (blX \<le> fst (bottomLeft this) \<and> fst (bottomLeft this) \<le> js_sub trX (leftThreshold this)) \<and>
      (js_add trY (bottomThreshold this) \<le> snd (bottomLeft this) \<and> snd (bottomLeft this) \<le> blY))
   \<and> checkBottomLeftCollision (this\<lparr>rightThreshold := r, topThreshold := t\<rparr>) blP trP
       = checkBottomLeftCollision this blP trP
   \<and> checkBottomLeftCollision (newBoundaries (0, 0) (101, 83) 3 r t 0) (- 98, 83) (3, 0)
   \<and> \<not> checkBottomLeftCollision (newBoundaries (0, 0) (101, 83) 4 r t 0) (- 98, 83) (3, 0)
   \<and> checkBottomLeftCollision (newBoundaries (0, 0) (101, 83) 0 r t 3) (0, 166) (101, 80)
   \<and> \<not> checkBottomLeftCollision (newBoundaries (0, 0) (101, 83) 0 r t 4) (0, 166) (101, 80)"
proof (intro conjI)
  show "checkBottomLeftCollision this (blX, blY) (trX, trY) \<longleftrightarrow>
      (blX \<le> fst (bottomLeft this) \<and> fst (bottomLeft this) \<le> js_sub trX (leftThreshold this)) \<and>
      (js_add trY (bottomThreshold this) \<le> snd (bottomLeft this) \<and> snd (bottomLeft this) \<le> blY)"
    by (auto simp: checkBottomLeftCollision_def split: prod.splits)
  show "checkBottomLeftCollision (this\<lparr>rightThreshold := r, topThreshold := t\<rparr>) blP trP
       = checkBottomLeftCollision this blP trP"
    by (simp add: checkBottomLeftCollision_def split: prod.splits)
qed (simp_all add: checkBottomLeftCollision_def newBoundaries_def js_defs double_eval)

text \<open>
  C9. With all four thresholds 0, a rectangle of non-negative width and height collides
  with an identical rectangle at the same position. Rounding does not disturb this, since
  it is monotone.
\<close>

theorem identical_rectangles_collide:
  assumes "0 \<le> w" and "0 \<le> h"
  shows "checkCollision (newBoundaries (x, y) (w, h) 0 0 0 0) (newBoundaries (x, y) (w, h) l r t b)"
proof -
  have "js_add x 0 \<le> js_add x w" using assms(1) by (rule js_add_mono2)
  moreover have "js_add y 0 \<le> js_add y h" using assms(2) by (rule js_add_mono2)
  ultimately have "checkBottomRightCollision (newBoundaries (x, y) (w, h) 0 0 0 0)
      (bottomRight (newBoundaries (x, y) (w, h) l r t b)) (topLeft (newBoundaries (x, y) (w, h) l r t b))"
    by (simp add: checkBottomRightCollision_def newBoundaries_def)
  then show ?thesis by (simp add: checkCollision_def)
qed

theorem identical_rectangles_collide_witness:
  "(0::real) \<le> 101 \<and> (0::real) \<le> 83 \<and>
   checkCollision (newBoundaries (202, 58) (101, 83) 0 0 0 0) (newBoundaries (202, 58) (101, 83) 0 0 0 0)"
  using identical_rectangles_collide [of 101 83 202 58 0 0 0 0] by simp

section \<open>Properties of the obstacles\<close>

text \<open>
  C4. For an obstacle that is not frozen, a position update \<open>N\<close> seconds after the last
  one, \<open>N = (now - lastUpdate) / 1000\<close>, yields \<open>x_old + speed * N\<close>, unless that exceeds
  505, in which case the position is reset to -101; and the update records \<open>now\<close> as the
  time of the last update, leaving speed, row and the frozen flag as they were. Difference,
  quotient, product and sum are those of JavaScript numbers, rounded as the code computes
  them.
\<close>

theorem updatePosition_advances_or_wraps:
  assumes "\<not> e_stopped e"
    and "N = js_div (js_sub (of_int now) (of_int (lastUpdate e))) 1000"
  shows "e_x (updatePosition now e) =
           (if js_add (e_x e) (js_mul (increase e) N) > 505 then - 101
            else js_add (e_x e) (js_mul (increase e) N))
         \<and> lastUpdate (updatePosition now e) = now
         \<and> increase (updatePosition now e) = increase e
         \<and> e_row (updatePosition now e) = e_row e
         \<and> \<not> e_stopped (updatePosition now e)"
  using assms by (simp add: updatePosition_def Let_def)

text \<open>
  The theorem at two states: a second and a half of travel at speed 200 from -101; and the
  obstacle of speed 300 at the number nearest to -100.7, 2019 ms after its last update,
  where the rounded sum (505.00000000000006 as JavaScript prints it) exceeds 505 and the
  obstacle wraps.
\<close>

theorem updatePosition_advances_or_wraps_witness:
  "\<not> e_stopped (newEnemy 2 200 1000)
   \<and> 3 / 2 = js_div (js_sub (of_int 2500) (of_int (lastUpdate (newEnemy 2 200 1000)))) 1000
   \<and> e_x (updatePosition 2500 (newEnemy 2 200 1000)) = 199
   \<and> lastUpdate (updatePosition 2500 (newEnemy 2 200 1000)) = 2500
   \<and> 1136595955957629 / 562949953421312 = js_div (js_sub (of_int 2020) (of_int 1)) 1000
   \<and> e_x (updatePosition 2020
        \<lparr>e_row = 3, e_x = - (7086132538690765 / 70368744177664), increase = 300,
         lastUpdate = 1, e_stopped = False\<rparr>) = - 101"
proof -
  have n1: "3 / 2 = js_div (js_sub (of_int 2500) (of_int (lastUpdate (newEnemy 2 200 1000)))) 1000"
    by (simp add: newEnemy_def js_defs double_eval)
  have n2: "1136595955957629 / 562949953421312 = js_div (js_sub (of_int 2020) (of_int 1)) 1000"
    by (simp add: js_defs double_eval)
  have s1: "\<not> e_stopped (newEnemy 2 200 1000)" by (simp add: newEnemy_def)
  have a1: "js_add (e_x (newEnemy 2 200 1000)) (js_mul (increase (newEnemy 2 200 1000)) (3 / 2)) = 199"
    by (simp add: newEnemy_def js_defs double_eval)
  have a2: "js_add (- (7086132538690765 / 70368744177664))
              (js_mul 300 (1136595955957629 / 562949953421312))
            = 8884053952430081 / 17592186044416"
    by (simp add: js_defs double_eval)
  from updatePosition_advances_or_wraps [OF s1 n1]
  have r1: "e_x (updatePosition 2500 (newEnemy 2 200 1000)) = 199"
    "lastUpdate (updatePosition 2500 (newEnemy 2 200 1000)) = 2500"
    by (simp_all add: a1)
  let ?e = "\<lparr>e_row = 3, e_x = - (7086132538690765 / 70368744177664), increase = 300,
               lastUpdate = 1, e_stopped = False\<rparr>"
  have s2: "\<not> e_stopped ?e" by simp
  have n2': "1136595955957629 / 562949953421312
               = js_div (js_sub (of_int 2020) (of_int (lastUpdate ?e))) 1000"
    using n2 by simp
  from updatePosition_advances_or_wraps [OF s2 n2']
  have r2: "e_x (updatePosition 2020 ?e) = - 101"
    by (simp add: a2)
  from s1 n1 r1 n2 r2 show ?thesis by (intro conjI)
qed

section \<open>Invariant of the running game\<close>

text \<open>
  From here on \<open>emitEvent\<close> is unfolded only on request; the lemmas above give its result
  on the game's bus.
\<close>

declare emitEvent.simps [simp del]

lemma init_inv: "game_inv (FroggerGame_world now)"
  by (simp add: game_inv_def in_grid_def FroggerGame_world_def newPlayer_def)

lemma moveUp_inv:
  assumes "game_inv w"
  shows "\<exists>w'. moveUp (Suc (Suc n)) FroggerGame_eventBus w = Some w' \<and> game_inv w'
          \<and> (p_stopped (player w) \<longrightarrow> w' = w)"
proof -
  have len: "length (enemies w) = 4" using assms by (simp add: game_inv_def)
  show ?thesis using assms
    by (auto simp: moveUp_def Let_def emit_WIN len game_inv_def in_grid_def)
qed

lemma draw_inv:
  assumes "game_inv w"
  shows "\<exists>w'. draw (Suc (Suc n)) FroggerGame_eventBus now w = Some w' \<and> game_inv w'
          \<and> (p_stopped (player w) \<longrightarrow> p_stopped (player w'))"
proof -
  have len: "length (enemies w) = 4" using assms by (simp add: game_inv_def)
  show ?thesis using assms
    by (auto simp: draw_def Player_drawItself_def emit_LOSE len game_inv_def in_grid_def)
qed

lemma timeout_inv:
  assumes "game_inv w"
  shows "\<exists>w'. step (Suc (Suc n)) FroggerGame_eventBus TimeoutFired w = Some w' \<and> game_inv w'"
proof (cases "p_stopped (player w)")
  case True
  with assms have t: "timers w = [\<lparr>duration = 2000, emits = RESET\<rparr>]"
    and len: "length (enemies (w\<lparr>timers := []\<rparr>)) = 4"
    by (simp_all add: game_inv_def)
  show ?thesis using assms
    by (simp add: step_def t emit_RESET [OF len] game_inv_def in_grid_def)
next
  case False
  with assms have "timers w = []" by (simp add: game_inv_def)
  then show ?thesis using assms by (simp add: step_def)
qed

lemma step_inv:
  assumes "game_inv w"
  shows "\<exists>w'. step (Suc (Suc n)) FroggerGame_eventBus i w = Some w' \<and> game_inv w'
           \<and> (p_stopped (player w) \<and> i \<noteq> TimeoutFired \<longrightarrow> p_stopped (player w'))"
proof (cases i)
  case KeyUp
  then show ?thesis using moveUp_inv [OF assms, of n] by (auto simp: step_def)
next
  case KeyDown
  then show ?thesis using assms by (auto simp: step_def moveDown_def game_inv_def in_grid_def)
next
  case KeyLeft
  then show ?thesis using assms by (auto simp: step_def moveLeft_def game_inv_def in_grid_def)
next
  case KeyRight
  then show ?thesis using assms by (auto simp: step_def moveRight_def game_inv_def in_grid_def)
next
  case (AnimationFrame now)
  then show ?thesis using draw_inv [OF assms, of n now] by (auto simp: step_def)
next
  case TimeoutFired
  then show ?thesis using timeout_inv [OF assms, of n] by auto
next
  case (CharacterSelected url)
  then show ?thesis using assms
    by (simp add: step_def emit_CHANGE_CHARACTER game_inv_def in_grid_def)
qed

lemma run_inv:
  assumes "game_inv w"
  shows "\<exists>w'. run (Suc (Suc n)) FroggerGame_eventBus inputs w = Some w' \<and> game_inv w'"
  using assms
proof (induction inputs arbitrary: w)
  case Nil
  then show ?case by simp
next
  case (Cons i inputs)
  from step_inv [OF Cons.prems] obtain w1
    where s: "step (Suc (Suc n)) FroggerGame_eventBus i w = Some w1" and inv: "game_inv w1"
    by blast
  from Cons.IH [OF inv] show ?case using s by simp
qed

lemma run_frozen:
  assumes "game_inv w" and "p_stopped (player w)" and "TimeoutFired \<notin> set inputs"
  shows "\<exists>w'. run (Suc (Suc n)) FroggerGame_eventBus inputs w = Some w' \<and> game_inv w'
           \<and> p_stopped (player w')"
  using assms
proof (induction inputs arbitrary: w)
  case Nil
  then show ?case by simp
next
  case (Cons i inputs)
  from Cons.prems have ne: "i \<noteq> TimeoutFired" and rest: "TimeoutFired \<notin> set inputs" by auto
  from step_inv [OF Cons.prems(1), of n i] Cons.prems(2) ne obtain w1
    where s: "step (Suc (Suc n)) FroggerGame_eventBus i w = Some w1" and inv: "game_inv w1"
      and fr: "p_stopped (player w1)"
    by blast
  from Cons.IH [OF inv fr rest] show ?case using s by simp
qed

lemma step_frozen_or_exit:
  assumes "game_inv w" and "is_move i"
    and "p_stopped (player w) \<or> would_exit_grid i (player w)"
  shows "step (Suc (Suc n)) FroggerGame_eventBus i w = Some w"
proof -
  from assms(2) consider "i = KeyUp" | "i = KeyDown" | "i = KeyLeft" | "i = KeyRight"
    by (auto simp: is_move_def)
  then show ?thesis
  proof cases
    case 1
    have "p_stopped (player w)"
      using assms(1,3) 1 by (auto simp: would_exit_grid_def game_inv_def in_grid_def)
    then show ?thesis using 1 by (simp add: step_def moveUp_def)
  next
    case 2
    then show ?thesis using assms(3) by (auto simp: step_def would_exit_grid_def moveDown_def)
  next
    case 3
    then show ?thesis using assms(3) by (auto simp: step_def would_exit_grid_def moveLeft_def)
  next
    case 4
    then show ?thesis using assms(3) by (auto simp: step_def would_exit_grid_def moveRight_def)
  qed
qed

lemma emit_WIN_log:
  "\<exists>w'. emitEvent (Suc (Suc n)) FroggerGame_eventBus WIN src params w = Some w'
      \<and> player w' = (player w)\<lparr>p_stopped := True\<rparr>
      \<and> published w' = published w @ [(WIN, src, params), (STOP, TheGame, EmptyObject)]"
  by (simp add: emitEvent.simps bus_WIN bus_STOP call_observer_def update_enemy_def)

section \<open>Registration order on the event bus\<close>

lemma observeEvent_lookup:
  "observeEvent ev ob events ev' =
     (if ev' = ev then Some (Set_add (case events ev of None \<Rightarrow> [] | Some s \<Rightarrow> s) ob)
      else events ev')"
  by (simp add: observeEvent_def Let_def split: option.splits)

lemma register_all_snoc:
  "register_all (regs @ [r]) = observeEvent (fst r) (snd r) (register_all regs)"
  by (simp add: register_all_def)

lemma registration_order_snoc:
  "registration_order (regs @ [r]) ev =
     (if fst r = ev then Set_add (registration_order regs ev) (snd r)
      else registration_order regs ev)"
  by (simp add: registration_order_def Set_add_def)

lemma registration_order_none:
  "\<forall>r\<in>set regs. fst r \<noteq> ev \<Longrightarrow> registration_order regs ev = []"
  by (simp add: registration_order_def filter_empty_conv)

lemma register_all_lookup:
  "register_all regs ev =
     (if \<exists>r\<in>set regs. fst r = ev then Some (registration_order regs ev) else None)"
proof (induction regs rule: rev_induct)
  case Nil
  then show ?case by (simp add: register_all_def)
next
  case (snoc r regs)
  show ?case
  proof (cases "fst r = ev")
    case True
    then show ?thesis
      using snoc registration_order_none [of regs ev]
      by (auto simp: register_all_snoc observeEvent_lookup registration_order_snoc Set_add_def)
  next
    case False
    then show ?thesis
      using snoc
      by (auto simp: register_all_snoc observeEvent_lookup registration_order_snoc)
  qed
qed

lemma for_await_fanout:
  "for_await invoke obs s = Some s' \<longleftrightarrow> sequential_fanout invoke obs s s'"
proof (induction obs arbitrary: s)
  case Nil
  show ?case by (auto intro: fanout_done elim: sequential_fanout.cases)
next
  case (Cons ob obs)
  show ?case
  proof
    assume "for_await invoke (ob # obs) s = Some s'"
    then obtain s1 where "invoke ob s = Some s1" "for_await invoke obs s1 = Some s'"
      by (auto split: option.splits)
    then show "sequential_fanout invoke (ob # obs) s s'"
      using Cons.IH by (auto intro: fanout_next)
  next
    assume "sequential_fanout invoke (ob # obs) s s'"
    then obtain s1 where "invoke ob s = Some s1" "sequential_fanout invoke obs s1 s'"
      by (auto elim: sequential_fanout.cases)
    then show "for_await invoke (ob # obs) s = Some s'"
      using Cons.IH by simp
  qed
qed

lemma registration_order_set:
  "set (registration_order regs ev) = {ob. (ev, ob) \<in> set regs}"
  by (force simp: registration_order_def)

section \<open>Properties of the event bus\<close>

text \<open>
  C7. For every event name and every publish, the bus invokes every observer registered
  for that event, each once, in the order of registration, the next one only on the state
  the previous one left when it completed. \<open>register_all regs\<close> is the bus after the
  calls of \<open>observeEvent\<close> listed in \<open>regs\<close>; an observer that does not complete within
  the nesting bound makes the publish not complete.
\<close>

theorem emitEvent_invokes_in_registration_order:
  "(emitEvent (Suc n) (register_all regs) ev src params w = Some w' \<longleftrightarrow>
      sequential_fanout (\<lambda>ob. call_observer (emitEvent n (register_all regs)) ob ev src params)
        (registration_order regs ev) (w\<lparr>published := published w @ [(ev, src, params)]\<rparr>) w')
   \<and> distinct (registration_order regs ev)
   \<and> set (registration_order regs ev) = {ob. (ev, ob) \<in> set regs}"
proof (intro conjI)
  show "emitEvent (Suc n) (register_all regs) ev src params w = Some w' \<longleftrightarrow>
      sequential_fanout (\<lambda>ob. call_observer (emitEvent n (register_all regs)) ob ev src params)
        (registration_order regs ev) (w\<lparr>published := published w @ [(ev, src, params)]\<rparr>) w'"
  proof (cases "\<exists>r\<in>set regs. fst r = ev")
    case True
    then show ?thesis
      by (simp add: emitEvent.simps register_all_lookup for_await_fanout del: bex_simps)
  next
    case False
    then have "registration_order regs ev = []"
      by (simp add: registration_order_none)
    with False show ?thesis
      by (auto simp: emitEvent.simps register_all_lookup intro: fanout_done
            elim: sequential_fanout.cases)
  qed
  show "distinct (registration_order regs ev)"
    by (simp add: registration_order_def)
  show "set (registration_order regs ev) = {ob. (ev, ob) \<in> set regs}"
    by (rule registration_order_set)
qed

theorem emitEvent_invokes_in_registration_order_witness:
  "registration_order [(WIN, FieldWin), (STOP, PlayerStop), (WIN, FieldLose), (WIN, FieldWin)] WIN
     = [FieldWin, FieldLose]
   \<and> sequential_fanout
       (\<lambda>ob. call_observer
          (emitEvent 0
            (register_all [(WIN, FieldWin), (STOP, PlayerStop), (WIN, FieldLose), (WIN, FieldWin)]))
          ob WIN ThePlayer EmptyObject)
       [FieldWin, FieldLose]
       ((FroggerGame_world 0)\<lparr>published := [(WIN, ThePlayer, EmptyObject)]\<rparr>)
       ((FroggerGame_world 0)\<lparr>root := \<lparr>drawWin = True, drawLose = True\<rparr>,
                               published := [(WIN, ThePlayer, EmptyObject)]\<rparr>)"
proof -
  let ?regs = "[(WIN, FieldWin), (STOP, PlayerStop), (WIN, FieldLose), (WIN, FieldWin)]"
  have o: "registration_order ?regs WIN = [FieldWin, FieldLose]"
    by (simp add: registration_order_def event_defs)
  have e: "emitEvent (Suc 0) (register_all ?regs) WIN ThePlayer EmptyObject (FroggerGame_world 0)
      = Some ((FroggerGame_world 0)\<lparr>root := \<lparr>drawWin = True, drawLose = True\<rparr>,
                               published := [(WIN, ThePlayer, EmptyObject)]\<rparr>)"
    by (simp add: emitEvent.simps register_all_def observeEvent_def Set_add_def event_defs
          call_observer_def FroggerGame_world_def)
  have p: "published (FroggerGame_world 0) = []" by (simp add: FroggerGame_world_def)
  from emitEvent_invokes_in_registration_order
         [of 0 ?regs WIN ThePlayer EmptyObject "FroggerGame_world 0"
            "(FroggerGame_world 0)\<lparr>root := \<lparr>drawWin = True, drawLose = True\<rparr>,
                               published := [(WIN, ThePlayer, EmptyObject)]\<rparr>"]
  have "sequential_fanout
       (\<lambda>ob. call_observer (emitEvent 0 (register_all ?regs)) ob WIN ThePlayer EmptyObject)
       [FieldWin, FieldLose]
       ((FroggerGame_world 0)\<lparr>published := [(WIN, ThePlayer, EmptyObject)]\<rparr>)
       ((FroggerGame_world 0)\<lparr>root := \<lparr>drawWin = True, drawLose = True\<rparr>,
                               published := [(WIN, ThePlayer, EmptyObject)]\<rparr>)"
    unfolding o p append_Nil using e by blast
  with o show ?thesis by (rule conjI)
qed

section \<open>Properties of the player\<close>

text \<open>
  C3. A player that is not frozen and stands on row 1 moves to row 0 on \<open>moveUp\<close>, and by
  the time \<open>moveUp\<close> has returned exactly one WIN event has been published, with the
  player as its source (the only other publish is the STOP that the game's WIN observer
  makes). The column plays no part.
\<close>

theorem moveUp_from_row_1_publishes_WIN:
  assumes "\<not> p_stopped (player w)" and "p_y (player w) = 1"
  shows "\<exists>w'. moveUp (Suc (Suc n)) FroggerGame_eventBus w = Some w'
           \<and> p_x (player w') = p_x (player w) \<and> p_y (player w') = 0
           \<and> published w' =
               published w @ [(WIN, ThePlayer, EmptyObject), (STOP, TheGame, EmptyObject)]"
  using assms emit_WIN_log [of n ThePlayer EmptyObject "w\<lparr>player := (player w)\<lparr>p_y := 0\<rparr>\<rparr>"]
  by (auto simp: moveUp_def Let_def)

theorem moveUp_from_row_1_publishes_WIN_witness:
  "\<exists>w'. moveUp (Suc (Suc 0)) FroggerGame_eventBus
            ((FroggerGame_world 0)\<lparr>player := newPlayer (2, 1)\<rparr>) = Some w'
      \<and> p_x (player w') = 2 \<and> p_y (player w') = 0
      \<and> published w' = [(WIN, ThePlayer, EmptyObject), (STOP, TheGame, EmptyObject)]"
  using moveUp_from_row_1_publishes_WIN
          [of "(FroggerGame_world 0)\<lparr>player := newPlayer (2, 1)\<rparr>" 0]
  by (simp add: FroggerGame_world_def newPlayer_def)

text \<open>
  C10. A player that is not frozen and already stands on row 0 keeps its column and row on
  \<open>moveUp\<close>, and a WIN event is published again, with the player as its source.
\<close>

theorem moveUp_at_row_0_publishes_WIN_again:
  assumes "\<not> p_stopped (player w)" and "p_y (player w) = 0"
  shows "\<exists>w'. moveUp (Suc (Suc n)) FroggerGame_eventBus w = Some w'
           \<and> p_x (player w') = p_x (player w) \<and> p_y (player w') = p_y (player w)
           \<and> published w' =
               published w @ [(WIN, ThePlayer, EmptyObject), (STOP, TheGame, EmptyObject)]"
  using assms emit_WIN_log [of n ThePlayer EmptyObject w]
  by (auto simp: moveUp_def Let_def)

theorem moveUp_at_row_0_publishes_WIN_again_witness:
  "\<exists>w'. moveUp (Suc (Suc 0)) FroggerGame_eventBus
            ((FroggerGame_world 0)\<lparr>player := newPlayer (2, 0)\<rparr>) = Some w'
      \<and> p_x (player w') = 2 \<and> p_y (player w') = 0
      \<and> published w' = [(WIN, ThePlayer, EmptyObject), (STOP, TheGame, EmptyObject)]"
  using moveUp_at_row_0_publishes_WIN_again
          [of "(FroggerGame_world 0)\<lparr>player := newPlayer (2, 0)\<rparr>" 0]
  by (simp add: FroggerGame_world_def newPlayer_def)

text \<open>
  C6. In every state the game reaches from its construction, whatever the sequence of key
  presses, animation frames, timeouts and character changes, the player's column is in
  [0,4] and its row in [0,5]. Every further operation completes and keeps the player in
  the grid, and a move is a no-op, leaving the whole state as it was, when the player is
  frozen or the move would exit the grid.
\<close>

theorem player_stays_in_grid:
  "\<exists>w. run (Suc (Suc n)) FroggerGame_eventBus inputs (FroggerGame_world now) = Some w
      \<and> in_grid (player w)
      \<and> (\<exists>w'. step (Suc (Suc n)) FroggerGame_eventBus i w = Some w'
            \<and> in_grid (player w')
            \<and> (is_move i \<and> (p_stopped (player w) \<or> would_exit_grid i (player w))
                 \<longrightarrow> w' = w))"
proof -
  from run_inv [OF init_inv] obtain w
    where r: "run (Suc (Suc n)) FroggerGame_eventBus inputs (FroggerGame_world now) = Some w"
      and inv: "game_inv w"
    by blast
  from step_inv [OF inv] obtain w'
    where s: "step (Suc (Suc n)) FroggerGame_eventBus i w = Some w'" and inv': "game_inv w'"
    by blast
  have "is_move i \<and> (p_stopped (player w) \<or> would_exit_grid i (player w)) \<longrightarrow> w' = w"
    using step_frozen_or_exit [OF inv, of i n] s by auto
  with r s inv inv' show ?thesis by (auto simp: game_inv_def)
qed

theorem player_stays_in_grid_witness:
  "\<exists>w. run (Suc (Suc 0)) FroggerGame_eventBus [KeyLeft, KeyLeft] (FroggerGame_world 0) = Some w
      \<and> in_grid (player w) \<and> is_move KeyLeft \<and> would_exit_grid KeyLeft (player w)
      \<and> step (Suc (Suc 0)) FroggerGame_eventBus KeyLeft w = Some w"
  using player_stays_in_grid [of 0 "[KeyLeft, KeyLeft]" 0 KeyLeft]
  by (simp add: step_def moveLeft_def FroggerGame_world_def newPlayer_def is_move_def
        would_exit_grid_def)

section \<open>Properties of the game\<close>

text \<open>
  C5. In every state the game reaches, publishing WIN publishes STOP exactly once, before
  the WIN publish returns, leaving the player and every obstacle frozen, and schedules
  exactly one RESET with a delay of 2000 ms. When no other timeout was pending, this one
  stays the only pending timeout through any key presses, frames and character changes,
  and when it fires RESET is published: the player is back on column 2, row 5 (the
  position it was constructed with), every obstacle is at x = -101, nothing is frozen and
  nothing is pending.
\<close>

theorem WIN_stops_then_schedules_RESET:
  assumes "run (Suc (Suc n)) FroggerGame_eventBus inputs (FroggerGame_world now) = Some w"
    and "TimeoutFired \<notin> set later"
  shows "\<exists>w1.
      emitEvent (Suc (Suc n)) FroggerGame_eventBus WIN src params w = Some w1
    \<and> published w1 = published w @ [(WIN, src, params), (STOP, TheGame, EmptyObject)]
    \<and> p_stopped (player w1)
    \<and> map e_stopped (enemies w1) = [True, True, True, True]
    \<and> timers w1 = timers w @ [\<lparr>duration = 2000, emits = RESET\<rparr>]
    \<and> (timers w = [] \<longrightarrow> (\<exists>w2 w3.
          run (Suc (Suc n)) FroggerGame_eventBus later w1 = Some w2
        \<and> timers w2 = [\<lparr>duration = 2000, emits = RESET\<rparr>]
        \<and> step (Suc (Suc n)) FroggerGame_eventBus TimeoutFired w2 = Some w3
        \<and> published w3 = published w2 @ [(RESET, TheGame, EmptyObject)]
        \<and> timers w3 = []
        \<and> p_x (player w3) = 2 \<and> p_y (player w3) = 5
        \<and> \<not> p_stopped (player w3)
        \<and> map e_x (enemies w3) = [- 101, - 101, - 101, - 101]
        \<and> map e_stopped (enemies w3) = [False, False, False, False]))"
proof -
  from run_inv [OF init_inv, of n inputs now] assms(1) have inv: "game_inv w" by simp
  then have len: "length (enemies w) = 4" by (simp add: game_inv_def)
  then obtain a b c d where es: "enemies w = [a, b, c, d]" by (rule length4E)
  define w1 where "w1 =
    w\<lparr>root := (root w)\<lparr>drawWin := True\<rparr>,
      player := (player w)\<lparr>p_stopped := True\<rparr>,
      enemies := map (\<lambda>e. e\<lparr>e_stopped := True\<rparr>) (enemies w),
      timers := timers w @ [\<lparr>duration = 2000, emits = RESET\<rparr>],
      published := published w @ [(WIN, src, params), (STOP, TheGame, EmptyObject)]\<rparr>"
  have e1: "emitEvent (Suc (Suc n)) FroggerGame_eventBus WIN src params w = Some w1"
    unfolding w1_def by (rule emit_WIN [OF len])
  have part1: "published w1 = published w @ [(WIN, src, params), (STOP, TheGame, EmptyObject)]"
    "p_stopped (player w1)" "map e_stopped (enemies w1) = [True, True, True, True]"
    "timers w1 = timers w @ [\<lparr>duration = 2000, emits = RESET\<rparr>]"
    by (simp_all add: w1_def es)
  have part2: "\<exists>w2 w3.
          run (Suc (Suc n)) FroggerGame_eventBus later w1 = Some w2
        \<and> timers w2 = [\<lparr>duration = 2000, emits = RESET\<rparr>]
        \<and> step (Suc (Suc n)) FroggerGame_eventBus TimeoutFired w2 = Some w3
        \<and> published w3 = published w2 @ [(RESET, TheGame, EmptyObject)]
        \<and> timers w3 = []
        \<and> p_x (player w3) = 2 \<and> p_y (player w3) = 5
        \<and> \<not> p_stopped (player w3)
        \<and> map e_x (enemies w3) = [- 101, - 101, - 101, - 101]
        \<and> map e_stopped (enemies w3) = [False, False, False, False]"
    if quiet: "timers w = []"
  proof -
    have inv1: "game_inv w1" using inv quiet by (simp add: w1_def game_inv_def in_grid_def)
    from run_frozen [OF inv1 part1(2) assms(2), of n] obtain w2
      where r2: "run (Suc (Suc n)) FroggerGame_eventBus later w1 = Some w2"
        and inv2: "game_inv w2" and fr2: "p_stopped (player w2)"
      by blast
    from inv2 fr2 have t2: "timers w2 = [\<lparr>duration = 2000, emits = RESET\<rparr>]"
      and len2: "length (enemies (w2\<lparr>timers := []\<rparr>)) = 4"
      and init2: "initialSquarePosition (player w2) = (2, 5)"
      by (simp_all add: game_inv_def)
    from len2 have "length (enemies w2) = 4" by simp
    then obtain a2 b2 c2 d2 where es2: "enemies w2 = [a2, b2, c2, d2]" by (rule length4E)
    show ?thesis
      apply (rule exI [of _ w2])
      apply (simp add: r2 t2 step_def emit_RESET [OF len2] init2 es2)
      done
  qed
  have part2': "timers w = [] \<longrightarrow> (\<exists>w2 w3.
          run (Suc (Suc n)) FroggerGame_eventBus later w1 = Some w2
        \<and> timers w2 = [\<lparr>duration = 2000, emits = RESET\<rparr>]
        \<and> step (Suc (Suc n)) FroggerGame_eventBus TimeoutFired w2 = Some w3
        \<and> published w3 = published w2 @ [(RESET, TheGame, EmptyObject)]
        \<and> timers w3 = []
        \<and> p_x (player w3) = 2 \<and> p_y (player w3) = 5
        \<and> \<not> p_stopped (player w3)
        \<and> map e_x (enemies w3) = [- 101, - 101, - 101, - 101]
        \<and> map e_stopped (enemies w3) = [False, False, False, False])"
    by (rule impI) (rule part2)
  from e1 part1 part2' show ?thesis by (intro exI [of _ w1] conjI)
qed

theorem WIN_stops_then_schedules_RESET_witness:
  "run (Suc (Suc 0)) FroggerGame_eventBus [KeyUp] (FroggerGame_world 0)
     = Some ((FroggerGame_world 0)\<lparr>player := newPlayer (2, 5)\<lparr>p_y := 4\<rparr>\<rparr>)
   \<and> TimeoutFired \<notin> set [KeyUp, AnimationFrame 1000]
   \<and> timers ((FroggerGame_world 0)\<lparr>player := newPlayer (2, 5)\<lparr>p_y := 4\<rparr>\<rparr>) = []
   \<and> (\<exists>w1 w2 w3.
      emitEvent (Suc (Suc 0)) FroggerGame_eventBus WIN ThePlayer EmptyObject
         ((FroggerGame_world 0)\<lparr>player := newPlayer (2, 5)\<lparr>p_y := 4\<rparr>\<rparr>) = Some w1
    \<and> published w1 = [(WIN, ThePlayer, EmptyObject), (STOP, TheGame, EmptyObject)]
    \<and> p_stopped (player w1)
    \<and> timers w1 = [\<lparr>duration = 2000, emits = RESET\<rparr>]
    \<and> run (Suc (Suc 0)) FroggerGame_eventBus [KeyUp, AnimationFrame 1000] w1 = Some w2
    \<and> step (Suc (Suc 0)) FroggerGame_eventBus TimeoutFired w2 = Some w3
    \<and> published w3 = published w2 @ [(RESET, TheGame, EmptyObject)]
    \<and> timers w3 = []
    \<and> p_x (player w3) = 2 \<and> p_y (player w3) = 5
    \<and> \<not> p_stopped (player w3)
    \<and> map e_x (enemies w3) = [- 101, - 101, - 101, - 101]
    \<and> map e_stopped (enemies w3) = [False, False, False, False])"
proof -
  let ?w = "(FroggerGame_world 0)\<lparr>player := newPlayer (2, 5)\<lparr>p_y := 4\<rparr>\<rparr>"
  have r: "run (Suc (Suc 0)) FroggerGame_eventBus [KeyUp] (FroggerGame_world 0) = Some ?w"
    by (simp add: step_def moveUp_def FroggerGame_world_def newPlayer_def)
  have q: "TimeoutFired \<notin> set [KeyUp, AnimationFrame 1000]" by simp
  have p: "published ?w = []" "timers ?w = []"
    by (simp_all add: FroggerGame_world_def)
  from WIN_stops_then_schedules_RESET [OF r q, of ThePlayer EmptyObject]
  obtain w1 where w1:
    "emitEvent (Suc (Suc 0)) FroggerGame_eventBus WIN ThePlayer EmptyObject ?w = Some w1"
    "published w1 = [(WIN, ThePlayer, EmptyObject), (STOP, TheGame, EmptyObject)]"
    "p_stopped (player w1)"
    "timers w1 = [\<lparr>duration = 2000, emits = RESET\<rparr>]"
    and after: "\<exists>w2 w3.
          run (Suc (Suc 0)) FroggerGame_eventBus [KeyUp, AnimationFrame 1000] w1 = Some w2
        \<and> timers w2 = [\<lparr>duration = 2000, emits = RESET\<rparr>]
        \<and> step (Suc (Suc 0)) FroggerGame_eventBus TimeoutFired w2 = Some w3
        \<and> published w3 = published w2 @ [(RESET, TheGame, EmptyObject)]
        \<and> timers w3 = []
        \<and> p_x (player w3) = 2 \<and> p_y (player w3) = 5
        \<and> \<not> p_stopped (player w3)
        \<and> map e_x (enemies w3) = [- 101, - 101, - 101, - 101]
        \<and> map e_stopped (enemies w3) = [False, False, False, False]"
    unfolding p append_Nil by (elim exE conjE) (erule impE, rule refl, rule that)
  from after obtain w2 w3 where w23:
    "run (Suc (Suc 0)) FroggerGame_eventBus [KeyUp, AnimationFrame 1000] w1 = Some w2"
    "step (Suc (Suc 0)) FroggerGame_eventBus TimeoutFired w2 = Some w3"
    "published w3 = published w2 @ [(RESET, TheGame, EmptyObject)]"
    "timers w3 = []"
    "p_x (player w3) = 2" "p_y (player w3) = 5" "\<not> p_stopped (player w3)"
    "map e_x (enemies w3) = [- 101, - 101, - 101, - 101]"
    "map e_stopped (enemies w3) = [False, False, False, False]"
    by (elim exE conjE) (rule that)
  from r q p(2) w1 w23 show ?thesis by (intro conjI exI)
qed

section \<open>Freezing and the obstacles' clock\<close>

lemmas run_eval_defs = step_def moveUp_def draw_def Player_drawItself_def collisionDetection_def
  updatePosition_def FroggerGame_world_def newPlayer_def newEnemy_def emit_WIN emit_RESET
  Player_getPosition_def Player_getSize_def Enemy_getPosition_def Enemy_getSize_def
  geometry_defs js_defs double_eval

text \<open>
  C2 does not hold of the code. The game is constructed at time 0 and draws a frame at
  16 ms; the player then walks up to row 0, which freezes everything; RESET fires two
  seconds later and a frame is drawn at 2032 ms. The obstacles kept \<open>lastUpdate = 16\<close>
  across the freeze and the RESET, so this frame moves them by 2.016 s of travel from -101
  (the one of speed 400 passes 505 and wraps): the obstacle of speed 200 is drawn at 302.2,
  where 16 ms of travel since the unfreeze would put it at -97.8. The positions after the
  last frame are the numbers JavaScript prints as -60.68, 302.2, -101 and
  503.79999999999995.
\<close>

theorem obstacles_jump_after_unfreeze:
  "(\<exists>w. run (Suc (Suc 0)) FroggerGame_eventBus
          [AnimationFrame 16, KeyUp, KeyUp, KeyUp, KeyUp, KeyUp,
           AnimationFrame 1016, TimeoutFired]
          (FroggerGame_world 0) = Some w
     \<and> map e_stopped (enemies w) = [False, False, False, False]
     \<and> map e_x (enemies w) = [- 101, - 101, - 101, - 101]
     \<and> map lastUpdate (enemies w) = [16, 16, 16, 16])
   \<and> (\<exists>w. run (Suc (Suc 0)) FroggerGame_eventBus
          [AnimationFrame 16, KeyUp, KeyUp, KeyUp, KeyUp, KeyUp,
           AnimationFrame 1016, TimeoutFired, AnimationFrame 2032]
          (FroggerGame_world 0) = Some w
     \<and> map e_x (enemies w) =
          [- (8539950793401303 / 140737488355328), 5316358622622515 / 17592186044416,
           - 101, 2215735832294195 / 4398046511104]
     \<and> map lastUpdate (enemies w) = [2032, 2032, 2032, 2032])"
  by (simp add: run_eval_defs)

end
